theory Spec2Isabelle
  imports Main
begin

section \<open>JavaScript strings\<close>

text \<open>
  A JavaScript string is a sequence of UTF-16 code units. The rules of
  \<^verbatim>\<open>src/lib/markdown.ts\<close> read them with \<^verbatim>\<open>charCodeAt\<close> and compare them with
  numeric constants (\<^verbatim>\<open>0x24\<close> for the dollar sign, \<^verbatim>\<open>0x5c\<close> for the backslash), so a
  string is modelled as the list of its code units. No definition below depends on a code
  unit being smaller than \<open>2 ^ 16\<close>.
\<close>

type_synonym jsstring = "nat list"

text \<open>String literals of the source, written as Isabelle strings.\<close>

definition js :: "string \<Rightarrow> jsstring" where
  "js s = map of_char s"

text \<open>\<^verbatim>\<open>s.charCodeAt(i)\<close>: \<open>None\<close> stands for \<^verbatim>\<open>NaN\<close>, the result out of range.\<close>

definition charCodeAt :: "jsstring \<Rightarrow> nat \<Rightarrow> nat option" where
  "charCodeAt s i = (if i < length s then Some (s ! i) else None)"

text \<open>
  \<^verbatim>\<open>s.slice(a, b)\<close> for indices that are not negative: both are clamped to the length, and
  the result is empty when \<open>b \<le> a\<close>.
\<close>

definition slice :: "jsstring \<Rightarrow> nat \<Rightarrow> nat \<Rightarrow> jsstring" where
  "slice s a b = take (b - a) (drop a s)"

text \<open>The first index at which \<open>pat\<close> occurs in \<open>s\<close>, if any.\<close>

fun index_of :: "jsstring \<Rightarrow> jsstring \<Rightarrow> nat option" where
  "index_of pat [] = (if pat = [] then Some 0 else None)"
| "index_of pat (x # xs) =
     (if take (length pat) (x # xs) = pat then Some 0
      else map_option Suc (index_of pat xs))"

text \<open>
  \<^verbatim>\<open>s.indexOf(pat, fromIndex)\<close>; \<open>None\<close> stands for \<open>-1\<close>. The start is clamped to the
  length of \<open>s\<close>, as ECMAScript does.
\<close>

definition indexOf :: "jsstring \<Rightarrow> jsstring \<Rightarrow> nat \<Rightarrow> nat option" where
  "indexOf s pat fromIndex =
     (let start = min fromIndex (length s)
      in map_option (\<lambda>i. start + i) (index_of pat (drop start s)))"

text \<open>
  The code units that \<^verbatim>\<open>String.prototype.trim\<close> removes: ECMAScript's WhiteSpace
  (tab, vertical tab, form feed, space, no-break space, the byte order mark and the
  Unicode space separators) and LineTerminator (line feed, carriage return, line and
  paragraph separator).
\<close>

definition is_ws :: "nat \<Rightarrow> bool" where
  "is_ws c \<longleftrightarrow>
     c = 0x09 \<or> c = 0x0A \<or> c = 0x0B \<or> c = 0x0C \<or> c = 0x0D \<or> c = 0x20 \<or> c = 0xA0
     \<or> c = 0x1680 \<or> (0x2000 \<le> c \<and> c \<le> 0x200A) \<or> c = 0x2028 \<or> c = 0x2029
     \<or> c = 0x202F \<or> c = 0x205F \<or> c = 0x3000 \<or> c = 0xFEFF"

definition trim :: "jsstring \<Rightarrow> jsstring" where
  "trim s = rev (dropWhile is_ws (rev (dropWhile is_ws s)))"

text \<open>
  \<^verbatim>\<open>s.replace(/c/g, r)\<close> for a pattern that is one literal character: every occurrence
  of the code unit \<open>c\<close> is replaced by the string \<open>r\<close>, in one pass from left to right.
\<close>

definition replace_g :: "nat \<Rightarrow> jsstring \<Rightarrow> jsstring \<Rightarrow> jsstring" where
  "replace_g c r s = concat (map (\<lambda>x. if x = c then r else [x]) s)"

text \<open>
  A value thrown by a library call: an \<^verbatim>\<open>Error\<close> object with its message, or any
  other value (JavaScript can throw anything). A call that may throw returns a sum, with
  the thrown value on the left.
\<close>

datatype js_thrown = ErrorObj jsstring | NonError

text \<open>
  \<^verbatim>\<open>try { body } catch (e) { handler }\<close>: the handler runs on what the body throws, and
  what the handler throws propagates.
\<close>

definition try_catch :: "js_thrown + 'a \<Rightarrow> (js_thrown \<Rightarrow> js_thrown + 'a) \<Rightarrow> js_thrown + 'a" where
  "try_catch body handler = (case body of Inl e \<Rightarrow> handler e | Inr v \<Rightarrow> Inr v)"

section \<open>escapeHtml\<close>

text \<open>
  \<^verbatim>\<open>
  function escapeHtml(str: string): string {
    return str
      .replace(/&/g, '&amp;')
      .replace(/</g, '&lt;')
      .replace(/>/g, '&gt;')
      .replace(/"/g, '&quot;');
  }
  \<close>
  Four passes over the string, in this order.
\<close>

definition escapeHtml :: "jsstring \<Rightarrow> jsstring" where
  "escapeHtml str =
     replace_g 0x22 (js ''&quot;'')
       (replace_g 0x3E (js ''&gt;'')
         (replace_g 0x3C (js ''&lt;'')
           (replace_g 0x26 (js ''&amp;'') str)))"

text \<open>
  The inverse direction is not in the source: it is the reading of the escaped text by an
  HTML parser, which decodes character references in one pass from left to right. The
  decoder below knows the four references that \<open>escapeHtml\<close> writes and copies every
  other code unit.
\<close>

fun unescapeHtml :: "jsstring \<Rightarrow> jsstring" where
  "unescapeHtml [] = []"
| "unescapeHtml (c # cs) =
     (if c = 0x26 \<and> take 4 cs = js ''amp;'' then 0x26 # unescapeHtml (drop 4 cs)
      else if c = 0x26 \<and> take 3 cs = js ''lt;'' then 0x3C # unescapeHtml (drop 3 cs)
      else if c = 0x26 \<and> take 3 cs = js ''gt;'' then 0x3E # unescapeHtml (drop 3 cs)
      else if c = 0x26 \<and> take 5 cs = js ''quot;'' then 0x22 # unescapeHtml (drop 5 cs)
      else c # unescapeHtml cs)"

section \<open>Tokens and parser states\<close>

text \<open>
  A token of the host parser, with the fields that the code of this repository writes or
  reads. \<^verbatim>\<open>new Token(type, tag, nesting)\<close> leaves the content and the info string empty
  and the line map \<^verbatim>\<open>null\<close>.
\<close>

record Token =
  type_t :: string
  tag :: string
  nesting :: int
  content :: jsstring
  map_t :: "(nat \<times> nat) option"
  info :: jsstring

definition new_Token :: "string \<Rightarrow> string \<Rightarrow> int \<Rightarrow> Token" where
  "new_Token ty tg n =
     \<lparr>type_t = ty, tag = tg, nesting = n, content = [], map_t = None, info = []\<rparr>"

text \<open>
  The block parser's state: the source, and for each line the offset of its first
  character (\<open>bMarks\<close>), the offset of its end (\<open>eMarks\<close>: the line feed, or the length of
  the source for the last line), the number of indentation characters (\<open>tShift\<close>) and the
  indentation offset of a block quote (\<open>bsCount\<close>); the current line and the tokens
  pushed so far.
\<close>

record StateBlock =
  src :: jsstring
  bMarks :: "nat list"
  eMarks :: "nat list"
  tShift :: "nat list"
  bsCount :: "nat list"
  line :: nat
  tokens :: "Token list"

text \<open>
  The inline parser's state: the text of one block, the cursor, the end of the text, the
  pending literal text and the tokens pushed so far.
\<close>

record StateInline =
  src_inl :: jsstring
  pos :: nat
  posMax :: nat
  pending :: jsstring
  tokens_inl :: "Token list"

text \<open>
  \<^verbatim>\<open>state.push(type, tag, nesting)\<close> followed by the assignments to the fields of the
  token it returns. The token is shared with the state's array, so the assignments are seen
  there: the net effect is one token appended with the fields set.
\<close>

definition push_block :: "StateBlock \<Rightarrow> Token \<Rightarrow> StateBlock" where
  "push_block st tok = st\<lparr>tokens := tokens st @ [tok]\<rparr>"

text \<open>
  The inline state's \<^verbatim>\<open>push\<close> (a method of the host parser) first flushes the pending
  text, if there is any, into a text token of its own, and then appends the new token.
\<close>

definition pushPending :: "StateInline \<Rightarrow> StateInline" where
  "pushPending st =
     st\<lparr>tokens_inl := tokens_inl st @ [(new_Token ''text'' '''' 0)\<lparr>content := pending st\<rparr>],
        pending := []\<rparr>"

definition push_inline :: "StateInline \<Rightarrow> Token \<Rightarrow> StateInline" where
  "push_inline st tok =
     (let st1 = (if pending st \<noteq> [] then pushPending st else st)
      in st1\<lparr>tokens_inl := tokens_inl st1 @ [tok]\<rparr>)"

definition is_math :: "Token \<Rightarrow> bool" where
  "is_math tok \<longleftrightarrow> type_t tok = ''math_block'' \<or> type_t tok = ''math_inline''"

definition math_count :: "Token list \<Rightarrow> nat" where
  "math_count toks = length (filter is_math toks)"

section \<open>The block-math rule\<close>

text \<open>
  \<^verbatim>\<open>arr[i]\<close> on one of the state's line tables: \<open>None\<close> stands for \<^verbatim>\<open>undefined\<close>, what
  JavaScript reads at an index outside the array.
\<close>

definition arr_get :: "nat list \<Rightarrow> nat \<Rightarrow> nat option" where
  "arr_get xs i = (if i < length xs then Some (xs ! i) else None)"

text \<open>
  \<^verbatim>\<open>state.bMarks[n] + state.tShift[n]\<close>: a sum with \<^verbatim>\<open>undefined\<close> is \<^verbatim>\<open>NaN\<close>, here
  \<open>None\<close>.
\<close>

definition startPos_of :: "StateBlock \<Rightarrow> nat \<Rightarrow> nat option" where
  "startPos_of st n =
     (case arr_get (bMarks st) n of
        None \<Rightarrow> None
      | Some b \<Rightarrow> (case arr_get (tShift st) n of None \<Rightarrow> None | Some t \<Rightarrow> Some (b + t)))"

text \<open>
  The host parser keeps one entry for every line in each table; \<open>line_ok\<close> says that the
  line \<open>n\<close> has its entries.
\<close>

definition line_ok :: "StateBlock \<Rightarrow> nat \<Rightarrow> bool" where
  "line_ok st n \<longleftrightarrow> n < length (bMarks st) \<and> n < length (eMarks st) \<and> n < length (tShift st)"

text \<open>
  \<^verbatim>\<open>state.src.slice(pos, max)\<close> with \<^verbatim>\<open>pos = state.bMarks[n] + state.tShift[n]\<close> and
  \<^verbatim>\<open>max = state.eMarks[n]\<close>: the text of the line \<open>n\<close> after its indentation. For a line
  without entries JavaScript's \<^verbatim>\<open>slice\<close> takes \<^verbatim>\<open>NaN\<close> as the start \<open>0\<close> and
  \<^verbatim>\<open>undefined\<close> as the end of the string, so the slice is then the whole source.
\<close>

definition line_text :: "StateBlock \<Rightarrow> nat \<Rightarrow> jsstring" where
  "line_text st n =
     slice (src st)
       (case startPos_of st n of None \<Rightarrow> 0 | Some p \<Rightarrow> p)
       (case arr_get (eMarks st) n of None \<Rightarrow> length (src st) | Some m \<Rightarrow> m)"

text \<open>
  The loop of the multi-line form:
  \<^verbatim>\<open>
  for (nextLine = startLine + 1; nextLine < endLine; nextLine++) {
    const pos = state.bMarks[nextLine] + state.tShift[nextLine];
    const max = state.eMarks[nextLine];
    if (state.src.slice(pos, max).trim() === '$$') { found = true; break; }
  }
  \<close>
  The result is the closing line when \<open>found\<close> is set, and \<open>None\<close> otherwise.
\<close>

function find_close_line :: "StateBlock \<Rightarrow> nat \<Rightarrow> nat \<Rightarrow> nat option" where
  "find_close_line st nextLine endLine =
     (if nextLine < endLine then
        (if trim (line_text st nextLine) = js ''$$'' then Some nextLine
         else find_close_line st (nextLine + 1) endLine)
      else None)"
  by pat_completeness auto
termination
  by (relation "measure (\<lambda>(st, nextLine, endLine). endLine - nextLine)") auto

declare find_close_line.simps [simp del]

text \<open>
  Modelled from the spec: \<^verbatim>\<open>isSpace\<close> is a helper of the host parser (markdown-it) and is
  not among the sources. It is true of a tab and of a space, the characters that the spec
  calls indentation.
\<close>

definition isSpace :: "nat \<Rightarrow> bool" where
  "isSpace c \<longleftrightarrow> c = 0x09 \<or> c = 0x20"

text \<open>
  Modelled from the spec: \<^verbatim>\<open>state.getLines(begin, end, indent, keepLastLF)\<close> is a method
  of the host parser (markdown-it) and is not among the sources. The spec says of its
  result here: "the joined text of all lines strictly between the opening and closing
  delimiter lines". The model follows the host's method in three steps. The first is the
  inner loop, which steps over at most \<open>indent\<close> columns of indentation at the start of
  the line \<open>ln\<close>: a tab advances to the next multiple of four, a space and a character
  masked by \<open>tShift\<close> advance by one (the host's test \<^verbatim>\<open>first - lineStart < tShift[line]\<close>
  is written without the subtraction). It returns the offset reached and the columns
  passed. Where a table has no entry for the line the host computes with \<^verbatim>\<open>undefined\<close>:
  a tab then makes the column count \<^verbatim>\<open>NaN\<close>, which ends the loop after the tab and is
  larger than no indent (the model returns \<open>0\<close> columns), and the comparison with a
  missing \<open>tShift\<close> is false.
\<close>

function skip_indent :: "StateBlock \<Rightarrow> nat \<Rightarrow> nat \<Rightarrow> nat \<Rightarrow> nat \<Rightarrow> nat \<Rightarrow> nat \<times> nat" where
  "skip_indent st ln indent lastPos first lineIndent =
     (if first < lastPos \<and> lineIndent < indent then
        (if (case charCodeAt (src st) first of None \<Rightarrow> False | Some ch \<Rightarrow> isSpace ch) then
           (if charCodeAt (src st) first = Some 0x09 then
              (case arr_get (bsCount st) ln of
                 None \<Rightarrow> (first + 1, 0)
               | Some c \<Rightarrow>
                   skip_indent st ln indent lastPos (first + 1)
                     (lineIndent + (4 - (lineIndent + c) mod 4)))
            else skip_indent st ln indent lastPos (first + 1) (lineIndent + 1))
         else if (case startPos_of st ln of
                    None \<Rightarrow> False
                  | Some p \<Rightarrow> first < p)
           then skip_indent st ln indent lastPos (first + 1) (lineIndent + 1)
         else (first, lineIndent))
      else (first, lineIndent))"
  by pat_completeness auto
termination
  by (relation "measure (\<lambda>(st, ln, indent, lastPos, first, lineIndent). lastPos - first)") auto

declare skip_indent.simps [simp del]

text \<open>
  Modelled from the spec: the body of the outer loop of \<^verbatim>\<open>getLines\<close> (host parser, not among
  the sources), the text that one line contributes. The line is cut from the source after
  the indentation stepped over, up to its end mark, or one further to keep the line feed;
  when a tab went beyond \<open>indent\<close> the columns in excess are given back as spaces. For a
  line without entries the inner loop does not run and the slice is taken with
  \<^verbatim>\<open>undefined\<close> bounds: a missing start is \<open>0\<close>, a missing end is the end of the source,
  and a missing end plus one is \<^verbatim>\<open>NaN\<close>, which \<^verbatim>\<open>slice\<close> takes as \<open>0\<close>.
\<close>

definition getLine :: "StateBlock \<Rightarrow> nat \<Rightarrow> nat \<Rightarrow> bool \<Rightarrow> jsstring" where
  "getLine st ln indent keepLF =
     (case arr_get (bMarks st) ln of
        None \<Rightarrow>
          slice (src st) 0
            (case arr_get (eMarks st) ln of
               None \<Rightarrow> (if keepLF then 0 else length (src st))
             | Some e \<Rightarrow> (if keepLF then e + 1 else e))
      | Some lineStart \<Rightarrow>
          (case arr_get (eMarks st) ln of
             None \<Rightarrow> slice (src st) lineStart (if keepLF then 0 else length (src st))
           | Some e \<Rightarrow>
               let lastPos = (if keepLF then e + 1 else e);
                   (first, lineIndent) = skip_indent st ln indent lastPos lineStart 0
               in (if indent < lineIndent then replicate (lineIndent - indent) 0x20 else [])
                  @ slice (src st) first lastPos))"

text \<open>
  Modelled from the spec: \<^verbatim>\<open>getLines\<close> itself (host parser, not among the sources), "the
  joined text" of the lines from \<open>begin_l\<close> up to \<open>end_l - 1\<close>. Every line but the last
  keeps its line feed; the last keeps it when \<open>keepLastLF\<close> is set.
\<close>

definition getLines :: "StateBlock \<Rightarrow> nat \<Rightarrow> nat \<Rightarrow> nat \<Rightarrow> bool \<Rightarrow> jsstring" where
  "getLines st begin_l end_l indent keepLastLF =
     concat (map (\<lambda>ln. getLine st ln indent (ln + 1 < end_l \<or> keepLastLF)) [begin_l ..< end_l])"

text \<open>
  \<^verbatim>\<open>
  const blockMathRule = (state, startLine, endLine, silent): boolean => {
    const startPos = state.bMarks[startLine] + state.tShift[startLine];
    const maxPos = state.eMarks[startLine];
    if (startPos + 2 > maxPos) return false;
    if (state.src.slice(startPos, startPos + 2) !== '$$') return false;
    let nextLine = startLine;
    let found = false;
    const sameLineEnd = state.src.indexOf('$$', startPos + 2);
    if (sameLineEnd !== -1 && sameLineEnd < maxPos) {
      if (silent) return true;
      const content = state.src.slice(startPos + 2, sameLineEnd).trim();
      const token = state.push('math_block', 'div', 0);
      token.content = content;
      token.map = [startLine, startLine + 1];
      state.line = startLine + 1;
      return true;
    }
    for (...) { ... }
    if (!found) return false;
    if (silent) return true;
    const content = state.getLines(startLine + 1, nextLine, state.tShift[startLine], false).trim();
    const token = state.push('math_block', 'div', 0);
    token.content = content;
    token.map = [startLine, nextLine + 1];
    state.line = nextLine + 1;
    return true;
  };
  \<close>
  The model returns the rule's boolean together with the state it leaves. The part of the
  body after the single-line form (the loop and what follows it) is \<open>blockMathMulti\<close>;
  it is reached when \<^verbatim>\<open>indexOf\<close> finds nothing or finds a delimiter that is not before
  the end of the line. It takes the value of \<^verbatim>\<open>state.tShift[startLine]\<close>, which exists
  where it is reached.
\<close>

definition blockMathMulti :: "StateBlock \<Rightarrow> nat \<Rightarrow> nat \<Rightarrow> nat \<Rightarrow> bool \<Rightarrow> bool \<times> StateBlock" where
  "blockMathMulti st startLine endLine indent silent =
     (case find_close_line st (startLine + 1) endLine of
        None \<Rightarrow> (False, st)
      | Some nextLine \<Rightarrow>
          if silent then (True, st)
          else
            (True,
             (push_block st
                ((new_Token ''math_block'' ''div'' 0)
                   \<lparr>content := trim (getLines st (startLine + 1) nextLine indent False),
                    map_t := Some (startLine, nextLine + 1)\<rparr>))
             \<lparr>line := nextLine + 1\<rparr>))"

text \<open>
  A comparison with \<^verbatim>\<open>NaN\<close> or \<^verbatim>\<open>undefined\<close> is false. When \<open>startPos\<close> is
  \<^verbatim>\<open>NaN\<close> the first test does not return, the slice from \<^verbatim>\<open>NaN\<close> to \<^verbatim>\<open>NaN\<close> is
  empty and the second test returns \<open>false\<close>. When only \<open>maxPos\<close> is \<^verbatim>\<open>undefined\<close>,
  both comparisons with it are false.
\<close>

definition blockMathRule :: "StateBlock \<Rightarrow> nat \<Rightarrow> nat \<Rightarrow> bool \<Rightarrow> bool \<times> StateBlock" where
  "blockMathRule st startLine endLine silent =
     (case startPos_of st startLine of
        None \<Rightarrow> (False, st)
      | Some startPos \<Rightarrow>
          let maxPos = arr_get (eMarks st) startLine
          in
            if (case maxPos of None \<Rightarrow> False | Some m \<Rightarrow> startPos + 2 > m) then (False, st)
            else if slice (src st) startPos (startPos + 2) \<noteq> js ''$$'' then (False, st)
            else
              (case indexOf (src st) (js ''$$'') (startPos + 2) of
                 Some sameLineEnd \<Rightarrow>
                   if (case maxPos of None \<Rightarrow> False | Some m \<Rightarrow> sameLineEnd < m) then
                     (if silent then (True, st)
                      else
                        (True,
                         (push_block st
                            ((new_Token ''math_block'' ''div'' 0)
                               \<lparr>content := trim (slice (src st) (startPos + 2) sameLineEnd),
                                map_t := Some (startLine, startLine + 1)\<rparr>))
                         \<lparr>line := startLine + 1\<rparr>))
                   else blockMathMulti st startLine endLine (tShift st ! startLine) silent
               | None \<Rightarrow> blockMathMulti st startLine endLine (tShift st ! startLine) silent))"

section \<open>The inline-math rule\<close>

text \<open>
  The scan for the closing delimiter:
  \<^verbatim>\<open>
  let end = start + 1;
  while (end < max) {
    const char = state.src.charCodeAt(end);
    if (char === 0x24 && state.src.charCodeAt(end - 1) !== 0x5c) { break; }
    end++;
  }
  \<close>
  The result is the value of \<open>end\<close> when the loop is left.
\<close>

function find_closing :: "jsstring \<Rightarrow> nat \<Rightarrow> nat \<Rightarrow> nat" where
  "find_closing s end_p max_p =
     (if end_p < max_p then
        (if charCodeAt s end_p = Some 0x24 \<and> charCodeAt s (end_p - 1) \<noteq> Some 0x5C
         then end_p
         else find_closing s (end_p + 1) max_p)
      else end_p)"
  by pat_completeness auto
termination
  by (relation "measure (\<lambda>(s, end_p, max_p). max_p - end_p)") auto

declare find_closing.simps [simp del]

text \<open>
  \<^verbatim>\<open>
  const inlineMathRule = (state, silent): boolean => {
    const start = state.pos;
    const max = state.posMax;
    if (state.src.charCodeAt(start) !== 0x24) return false;
    if (start + 1 < max && state.src.charCodeAt(start + 1) === 0x24) return false;
    if (start > 0 && state.src.charCodeAt(start - 1) === 0x5c) return false;
    let end = start + 1;
    while (end < max) { ... }
    if (end >= max) return false;
    const content = state.src.slice(start + 1, end);
    if (!content.trim()) return false;
    if (!silent) {
      const token = state.push('math_inline', 'span', 0);
      token.content = content;
    }
    state.pos = end + 1;
    return true;
  };
  \<close>
  The empty string is the only string that is falsy.
\<close>

definition inlineMathRule :: "StateInline \<Rightarrow> bool \<Rightarrow> bool \<times> StateInline" where
  "inlineMathRule st silent =
     (let start = pos st; max_p = posMax st
      in
        if charCodeAt (src_inl st) start \<noteq> Some 0x24 then (False, st)
        else if start + 1 < max_p \<and> charCodeAt (src_inl st) (start + 1) = Some 0x24
          then (False, st)
        else if start > 0 \<and> charCodeAt (src_inl st) (start - 1) = Some 0x5C then (False, st)
        else
          let end_p = find_closing (src_inl st) (start + 1) max_p
          in
            if end_p \<ge> max_p then (False, st)
            else
              let content_s = slice (src_inl st) (start + 1) end_p
              in
                if trim content_s = [] then (False, st)
                else
                  (True,
                   (if \<not> silent
                    then push_inline st
                           ((new_Token ''math_inline'' ''span'' 0)\<lparr>content := content_s\<rparr>)
                    else st)
                   \<lparr>pos := end_p + 1\<rparr>))"

section \<open>Rendering math tokens\<close>

text \<open>
  \<^verbatim>\<open>katex.renderToString(content, {displayMode, throwOnError: false, ...})\<close> is a call
  into the math library. It is a parameter of the model: a function of the content and of
  the display mode that returns the markup or throws.
\<close>

type_synonym katex = "jsstring \<Rightarrow> bool \<Rightarrow> js_thrown + jsstring"

text \<open>
  \<^verbatim>\<open>const errorMessage = e instanceof Error ? e.message : 'Unknown error';\<close>
\<close>

definition errorMessage :: "js_thrown \<Rightarrow> jsstring" where
  "errorMessage e = (case e of ErrorObj m \<Rightarrow> m | NonError \<Rightarrow> js ''Unknown error'')"

text \<open>
  \<^verbatim>\<open>
  md.renderer.rules.math_block = (tokens, idx): string => {
    const content = tokens[idx].content;
    try {
      const rendered = katex.renderToString(content, { displayMode: true, ... });
      return `<div class="katex-block">${rendered}</div>`;
    } catch (e) {
      const errorMessage = e instanceof Error ? e.message : 'Unknown error';
      return `<div class="math-error">Math error: ${escapeHtml(errorMessage)}</div>`;
    }
  };
  \<close>
\<close>

definition math_block :: "katex \<Rightarrow> Token \<Rightarrow> js_thrown + jsstring" where
  "math_block renderToString tok =
     try_catch
       (case renderToString (content tok) True of
          Inl e \<Rightarrow> Inl e
        | Inr rendered \<Rightarrow> Inr (js ''<div class=\"katex-block\">'' @ rendered @ js ''</div>''))
       (\<lambda>e. Inr (js ''<div class=\"math-error\">Math error: '' @ escapeHtml (errorMessage e)
                  @ js ''</div>''))"

text \<open>
  \<^verbatim>\<open>
  md.renderer.rules.math_inline = (tokens, idx): string => {
    const content = tokens[idx].content;
    try {
      const rendered = katex.renderToString(content, { displayMode: false, ... });
      return rendered;
    } catch (e) {
      const errorMessage = e instanceof Error ? e.message : 'Unknown error';
      return `<span class="math-error">Math error: ${escapeHtml(errorMessage)}</span>`;
    }
  };
  \<close>
\<close>

definition math_inline :: "katex \<Rightarrow> Token \<Rightarrow> js_thrown + jsstring" where
  "math_inline renderToString tok =
     try_catch
       (case renderToString (content tok) False of
          Inl e \<Rightarrow> Inl e
        | Inr rendered \<Rightarrow> Inr rendered)
       (\<lambda>e. Inr (js ''<span class=\"math-error\">Math error: '' @ escapeHtml (errorMessage e)
                  @ js ''</span>''))"

section \<open>The fence renderer\<close>

text \<open>
  The highlighter is a library too: \<^verbatim>\<open>hljs.getLanguage(lang)\<close> says whether a language
  is known, and \<^verbatim>\<open>hljs.highlight(str, {language, ignoreIllegals: true}).value\<close> is the
  highlighted markup, or throws.
\<close>

record hljs =
  getLanguage :: "jsstring \<Rightarrow> bool"
  highlight_hljs :: "jsstring \<Rightarrow> jsstring \<Rightarrow> js_thrown + jsstring"

text \<open>
  The \<^verbatim>\<open>highlight\<close> option given to the parser:
  \<^verbatim>\<open>
  highlight: (str: string, lang: string): string => {
    if (lang && hljs.getLanguage(lang)) {
      try {
        return hljs.highlight(str, { language: lang, ignoreIllegals: true }).value;
      } catch { }
    }
    return escapeHtml(str);
  }
  \<close>
  The empty \<^verbatim>\<open>catch\<close> block falls through to the last \<^verbatim>\<open>return\<close>.
\<close>

definition highlight :: "hljs \<Rightarrow> jsstring \<Rightarrow> jsstring \<Rightarrow> js_thrown + jsstring" where
  "highlight h str lang =
     (if lang \<noteq> [] \<and> getLanguage h lang
      then try_catch (highlight_hljs h str lang) (\<lambda>e. Inr (escapeHtml str))
      else Inr (escapeHtml str))"

text \<open>
  \<^verbatim>\<open>
  md.renderer.rules.fence = (tokens, idx, options) => {
    const token = tokens[idx];
    const lang = token.info.trim();
    if (lang === 'mermaid') {
      return `<div class="mermaid">${escapeHtml(token.content)}</div>`;
    }
    const code = options.highlight?.(token.content, lang, '') || escapeHtml(token.content);
    const langClass = lang ? ` class="language-${lang}"` : '';
    return `<pre class="hljs"><code${langClass}>${code}</code></pre>`;
  };
  \<close>
  \<^verbatim>\<open>a || b\<close> is \<open>b\<close> when \<open>a\<close> is the empty string. The \<^verbatim>\<open>highlight\<close> option is
  always set by \<^verbatim>\<open>createMarkdownRenderer\<close>, so the optional call is a call.
\<close>

definition fence :: "hljs \<Rightarrow> Token \<Rightarrow> js_thrown + jsstring" where
  "fence h token =
     (let lang = trim (info token)
      in
        if lang = js ''mermaid''
        then Inr (js ''<div class=\"mermaid\">'' @ escapeHtml (content token) @ js ''</div>'')
        else
          (case highlight h (content token) lang of
             Inl e \<Rightarrow> Inl e
           | Inr hl \<Rightarrow>
               let code = (if hl \<noteq> [] then hl else escapeHtml (content token));
                   langClass = (if lang \<noteq> [] then js '' class=\"language-'' @ lang @ js ''\"''
                                else [])
               in Inr (js ''<pre class=\"hljs\"><code'' @ langClass @ js ''>'' @ code
                        @ js ''</code></pre>'')))"

section \<open>Sanitized rendering\<close>

text \<open>
  \<^verbatim>\<open>
  export function renderMarkdownSafe(content: string, options: RenderOptions = {}): string {
    const html = renderMarkdownWithOptions(content, options.markdownOptions);
    if (options.sanitize !== false) {
      const DOMPurify = require('isomorphic-dompurify');
      return DOMPurify.sanitize(html, { ADD_TAGS: [...], ADD_ATTR: [...], ALLOW_DATA_ATTR: true });
    }
    return html;
  }
  \<close>
  The host parser's \<^verbatim>\<open>render\<close> and the sanitizer with its configuration are library
  calls and parameters of the model. The option \<^verbatim>\<open>sanitize\<close> may be absent.
\<close>

record RenderOptions =
  sanitize :: "bool option"

definition renderMarkdownSafe ::
  "(jsstring \<Rightarrow> jsstring) \<Rightarrow> (jsstring \<Rightarrow> jsstring) \<Rightarrow> jsstring \<Rightarrow> RenderOptions \<Rightarrow> jsstring" where
  "renderMarkdownSafe render DOMPurify_sanitize content_s options =
     (let html = render content_s
      in if sanitize options \<noteq> Some False then DOMPurify_sanitize html else html)"

section \<open>Example states\<close>

text \<open>
  The state in which the inline parser starts on the text \<open>s\<close>, moved to the position
  \<open>p\<close>: nothing pending, no token yet, the end of the text as \<open>posMax\<close>.
\<close>

definition inline_state :: "jsstring \<Rightarrow> nat \<Rightarrow> StateInline" where
  "inline_state s p = \<lparr>src_inl = s, pos = p, posMax = length s, pending = [], tokens_inl = []\<rparr>"

text \<open>
  A block state before any rule has run, given the source and the line tables. The host
  parser ends each table with one more entry, at the length of the source.
\<close>

definition block_state :: "jsstring \<Rightarrow> nat list \<Rightarrow> nat list \<Rightarrow> nat list \<Rightarrow> StateBlock" where
  "block_state s bs es ts =
     \<lparr>src = s, bMarks = bs, eMarks = es, tShift = ts, bsCount = map (\<lambda>_. 0) bs,
      line = 0, tokens = []\<rparr>"

text \<open>
  The two documents of the block-math examples, as the block parser holds them before its
  first rule runs. The first is \<^verbatim>\<open>$$\<close>, then the line \<^verbatim>\<open> x^2 \<close> with a space on both
  sides, then \<^verbatim>\<open>$$\<close>: eleven code units in three lines, the second indented by one. The
  second is the one line \<^verbatim>\<open>$$x^2$$\<close> of seven code units.
\<close>

definition doc_multi_line :: StateBlock where
  "doc_multi_line =
     block_state (js ''$$'' @ [0x0A] @ js '' x^2 '' @ [0x0A] @ js ''$$'')
       [0, 3, 9, 11] [2, 8, 11, 11] [0, 1, 0, 0]"

definition doc_single_line :: StateBlock where
  "doc_single_line = block_state (js ''$$x^2$$'') [0, 7] [7, 7] [0, 0]"

section \<open>Properties of escapeHtml\<close>

lemma replace_g_append: "replace_g c r (a @ b) = replace_g c r a @ replace_g c r b"
  by (simp add: replace_g_def)

lemma escapeHtml_append: "escapeHtml (a @ b) = escapeHtml a @ escapeHtml b"
  by (simp add: escapeHtml_def replace_g_append)

lemma escapeHtml_single:
  "escapeHtml [x] =
     (if x = 0x26 then js ''&amp;'' else if x = 0x3C then js ''&lt;''
      else if x = 0x3E then js ''&gt;'' else if x = 0x22 then js ''&quot;'' else [x])"
  by (simp add: escapeHtml_def replace_g_def js_def)

lemma escapeHtml_Cons: "escapeHtml (x # xs) = escapeHtml [x] @ escapeHtml xs"
  using escapeHtml_append [of "[x]" xs] by simp

lemma escapeHtml_Nil: "escapeHtml [] = []"
  by (simp add: escapeHtml_def replace_g_def)

lemma unescapeHtml_escapeHtml: "unescapeHtml (escapeHtml s) = s"
proof (induction s)
  case Nil
  show ?case by (simp add: escapeHtml_Nil)
next
  case (Cons x xs)
  have "unescapeHtml (escapeHtml [x] @ escapeHtml xs) = x # unescapeHtml (escapeHtml xs)"
  proof -
    consider "x = 0x26" | "x = 0x3C" | "x = 0x3E" | "x = 0x22"
      | "x \<noteq> 0x26" "x \<noteq> 0x3C" "x \<noteq> 0x3E" "x \<noteq> 0x22"
      by blast
    then show ?thesis
    proof cases
      case 1
      then show ?thesis by (simp add: escapeHtml_single js_def)
    next
      case 2
      then show ?thesis by (simp add: escapeHtml_single js_def)
    next
      case 3
      then show ?thesis by (simp add: escapeHtml_single js_def)
    next
      case 4
      then show ?thesis by (simp add: escapeHtml_single js_def)
    next
      case 5
      then show ?thesis by (simp add: escapeHtml_single)
    qed
  qed
  with Cons show ?case by (simp add: escapeHtml_Cons [of x xs])
qed

lemma escapeHtml_no_markup: "set (escapeHtml s) \<inter> {0x3C, 0x3E, 0x22} = {}"
proof (induction s)
  case Nil
  show ?case by (simp add: escapeHtml_Nil)
next
  case (Cons x xs)
  have "set (escapeHtml [x]) \<inter> {0x3C, 0x3E, 0x22} = {}"
    by (simp add: escapeHtml_single js_def)
  with Cons show ?case by (auto simp: escapeHtml_Cons [of x xs])
qed

section \<open>Properties of the scan for the closing delimiter\<close>

lemma find_closing_ge: "e \<le> find_closing s e m"
proof (induction s e m rule: find_closing.induct)
  case (1 s e m)
  then show ?case
    by (subst find_closing.simps) auto
qed

lemma find_closing_delim:
  "find_closing s e m < m \<Longrightarrow>
     charCodeAt s (find_closing s e m) = Some 0x24 \<and>
     charCodeAt s (find_closing s e m - 1) \<noteq> Some 0x5C"
proof (induction s e m rule: find_closing.induct)
  case (1 s e m)
  show ?case
  proof (cases "e < m")
    case False
    with "1.prems" show ?thesis by (simp add: find_closing.simps [of s e m])
  next
    case True
    show ?thesis
    proof (cases "charCodeAt s e = Some 0x24 \<and> charCodeAt s (e - 1) \<noteq> Some 0x5C")
      case stop: True
      with True show ?thesis by (simp add: find_closing.simps [of s e m])
    next
      case go: False
      have eq: "find_closing s e m = find_closing s (e + 1) m"
        by (subst find_closing.simps) (use True go in auto)
      with "1.IH" [OF True go] "1.prems" show ?thesis by simp
    qed
  qed
qed

lemma find_closing_blank:
  "e \<le> c \<Longrightarrow> c < m \<Longrightarrow> charCodeAt s c = Some 0x24 \<Longrightarrow>
   \<forall>i. e \<le> i \<and> i < c \<longrightarrow> (\<exists>w. charCodeAt s i = Some w \<and> is_ws w) \<Longrightarrow>
   e < c \<or> charCodeAt s (e - 1) \<noteq> Some 0x5C \<Longrightarrow>
   find_closing s e m = c"
proof (induction s e m rule: find_closing.induct)
  case (1 s e m)
  show ?case
  proof (cases "e = c")
    case True
    with "1.prems" show ?thesis by (subst find_closing.simps) simp
  next
    case False
    with "1.prems" have lt: "e < c" by simp
    with "1.prems" obtain w where w: "charCodeAt s e = Some w" "is_ws w" by blast
    then have nd: "charCodeAt s e \<noteq> Some 0x24" by (auto simp: is_ws_def)
    from lt "1.prems" have em: "e < m" by simp
    from nd have go: "\<not> (charCodeAt s e = Some 0x24 \<and> charCodeAt s (e - 1) \<noteq> Some 0x5C)"
      by simp
    have nb: "charCodeAt s (e + 1 - 1) \<noteq> Some 0x5C" using w by (auto simp: is_ws_def)
    have "find_closing s (e + 1) m = c"
      using "1.IH" [OF em go] lt "1.prems" nb by auto
    moreover have "find_closing s e m = find_closing s (e + 1) m"
      by (subst find_closing.simps) (use em go in auto)
    ultimately show ?thesis by simp
  qed
qed

lemma dropWhile_all: "\<forall>x\<in>set xs. P x \<Longrightarrow> dropWhile P xs = []"
  by (induction xs) auto

lemma trim_blank: "\<forall>x\<in>set s. is_ws x \<Longrightarrow> trim s = []"
  by (simp add: trim_def dropWhile_all)

lemma trim_nonempty: "trim s \<noteq> [] \<Longrightarrow> \<exists>x\<in>set s. \<not> is_ws x"
  using trim_blank by blast

section \<open>Properties of the inline-math rule\<close>

lemma inlineMathRule_declines: "inlineMathRule st silent = (False, st') \<Longrightarrow> st' = st"
  by (auto simp: inlineMathRule_def Let_def split: if_splits)

lemma inlineMathRule_matches:
  assumes "inlineMathRule st silent = (True, st')"
  defines "e \<equiv> find_closing (src_inl st) (pos st + 1) (posMax st)"
  shows "charCodeAt (src_inl st) (pos st) = Some 0x24"
    and "\<not> (pos st > 0 \<and> charCodeAt (src_inl st) (pos st - 1) = Some 0x5C)"
    and "e < posMax st"
    and "trim (slice (src_inl st) (pos st + 1) e) \<noteq> []"
    and "st' = (if silent then st
                else push_inline st ((new_Token ''math_inline'' ''span'' 0)
                       \<lparr>content := slice (src_inl st) (pos st + 1) e\<rparr>))\<lparr>pos := e + 1\<rparr>"
  using assms(1) unfolding e_def
  by (auto simp: inlineMathRule_def Let_def split: if_splits)

lemma blockMathRule_silent: "snd (blockMathRule bst startLine endLine True) = bst"
  by (auto simp: blockMathRule_def blockMathMulti_def Let_def split: option.splits)

lemma renderMarkdownSafe_sanitizes:
  "sanitize options \<noteq> Some False \<Longrightarrow>
   renderMarkdownSafe render DOMPurify_sanitize content_s options
     = DOMPurify_sanitize (render content_s)"
  by (simp add: renderMarkdownSafe_def)

lemma slice_set: "x \<in> set (slice s a b) \<Longrightarrow> \<exists>i. a \<le> i \<and> i < b \<and> charCodeAt s i = Some x"
proof -
  assume "x \<in> set (slice s a b)"
  then obtain k where k: "k < length (take (b - a) (drop a s))" "take (b - a) (drop a s) ! k = x"
    by (auto simp: slice_def in_set_conv_nth)
  then have "a + k < b" "a + k < length s" "s ! (a + k) = x" by auto
  then show ?thesis by (intro exI [of _ "a + k"]) (simp add: charCodeAt_def)
qed

lemma inlineMathRule_blank:
  assumes e: "pos st < e" "e < posMax st" "charCodeAt (src_inl st) e = Some 0x24"
    and blank: "\<forall>i. pos st < i \<and> i < e \<longrightarrow> (\<exists>w. charCodeAt (src_inl st) i = Some w \<and> is_ws w)"
  shows "inlineMathRule st silent = (False, st)"
proof (cases "e = pos st + 1")
  case True
  with e show ?thesis by (simp add: inlineMathRule_def Let_def)
next
  case False
  with e have lt: "pos st + 1 < e" by simp
  have fc: "find_closing (src_inl st) (pos st + 1) (posMax st) = e"
    using lt e blank by (intro find_closing_blank) auto
  have "\<forall>x\<in>set (slice (src_inl st) (pos st + 1) e). is_ws x"
  proof
    fix x assume "x \<in> set (slice (src_inl st) (pos st + 1) e)"
    then obtain i where i: "pos st + 1 \<le> i" "i < e" "charCodeAt (src_inl st) i = Some x"
      using slice_set by blast
    then have "pos st < i \<and> i < e" by simp
    with blank obtain w where "charCodeAt (src_inl st) i = Some w" "is_ws w" by blast
    with i show "is_ws x" by simp
  qed
  then have "trim (slice (src_inl st) (pos st + 1) e) = []" by (rule trim_blank)
  with fc show ?thesis by (auto simp: inlineMathRule_def Let_def)
qed

lemma charCodeAt_escaped_10:
  "charCodeAt (0x5C # js ''$10'') p = Some 0x24 \<longleftrightarrow> p = 1"
  by (auto simp: charCodeAt_def js_def nth_Cons' split: if_splits)

text \<open>
  A dollar sign of an adjacent pair can still delimit a span with another dollar sign:
  asked at the second dollar sign of \<^verbatim>\<open>a $$ b$\<close>, the rule matches up to the last one.
\<close>

lemma inline_second_dollar_opens:
  "inlineMathRule (inline_state (js ''a $$ b$'') 3) False
     = (True,
        \<lparr>src_inl = js ''a $$ b$'', pos = 7, posMax = 7, pending = [],
         tokens_inl = [(new_Token ''math_inline'' ''span'' 0)\<lparr>content := js '' b''\<rparr>]\<rparr>)"
  by (simp add: inlineMathRule_def Let_def inline_state_def js_def charCodeAt_def
      find_closing.simps slice_def trim_def is_ws_def push_inline_def new_Token_def)

section \<open>Properties of the block-math rule\<close>

lemma startPos_of_ok:
  "line_ok st n \<Longrightarrow> startPos_of st n = Some (bMarks st ! n + tShift st ! n)"
  by (simp add: line_ok_def startPos_of_def arr_get_def)

lemma eMarks_ok: "line_ok st n \<Longrightarrow> arr_get (eMarks st) n = Some (eMarks st ! n)"
  by (simp add: line_ok_def arr_get_def)

lemma line_text_ok:
  "line_ok st n \<Longrightarrow>
   line_text st n = slice (src st) (bMarks st ! n + tShift st ! n) (eMarks st ! n)"
  by (simp add: line_text_def startPos_of_ok eMarks_ok)

lemma blockMathRule_ok:
  assumes "line_ok st startLine"
  shows "blockMathRule st startLine endLine silent =
     (let startPos = bMarks st ! startLine + tShift st ! startLine;
          maxPos = eMarks st ! startLine
      in
        if startPos + 2 > maxPos then (False, st)
        else if slice (src st) startPos (startPos + 2) \<noteq> js ''$$'' then (False, st)
        else
          (case indexOf (src st) (js ''$$'') (startPos + 2) of
             Some sameLineEnd \<Rightarrow>
               if sameLineEnd < maxPos then
                 (if silent then (True, st)
                  else
                    (True,
                     (push_block st
                        ((new_Token ''math_block'' ''div'' 0)
                           \<lparr>content := trim (slice (src st) (startPos + 2) sameLineEnd),
                            map_t := Some (startLine, startLine + 1)\<rparr>))
                     \<lparr>line := startLine + 1\<rparr>))
               else blockMathMulti st startLine endLine (tShift st ! startLine) silent
           | None \<Rightarrow> blockMathMulti st startLine endLine (tShift st ! startLine) silent))"
  by (simp add: blockMathRule_def startPos_of_ok [OF assms] eMarks_ok [OF assms] Let_def
      split: option.split)

lemma index_of_Some:
  "index_of pat s = Some j \<Longrightarrow> take (length pat) (drop j s) = pat"
proof (induction s arbitrary: j)
  case Nil
  then show ?case by (simp split: if_splits)
next
  case (Cons x xs)
  show ?case
  proof (cases "take (length pat) (x # xs) = pat")
    case True
    with Cons.prems show ?thesis by simp
  next
    case False
    with Cons.prems obtain k where "index_of pat xs = Some k" "j = Suc k" by auto
    with Cons.IH show ?thesis by simp
  qed
qed

lemma index_of_intro:
  "take (length pat) (drop j s) = pat \<Longrightarrow> j \<le> length s \<Longrightarrow>
   \<forall>i<j. take (length pat) (drop i s) \<noteq> pat \<Longrightarrow> index_of pat s = Some j"
proof (induction s arbitrary: j)
  case Nil
  then show ?case by simp
next
  case (Cons x xs)
  show ?case
  proof (cases j)
    case 0
    with Cons.prems show ?thesis by simp
  next
    case (Suc j')
    with Cons.prems have ne: "take (length pat) (x # xs) \<noteq> pat"
      by (metis drop0 zero_less_Suc)
    have "index_of pat xs = Some j'"
    proof (rule Cons.IH)
      show "take (length pat) (drop j' xs) = pat" using Cons.prems(1) Suc by simp
      show "j' \<le> length xs" using Cons.prems(2) Suc by simp
      show "\<forall>i<j'. take (length pat) (drop i xs) \<noteq> pat"
      proof (intro allI impI)
        fix i assume "i < j'"
        then have "Suc i < j" using Suc by simp
        with Cons.prems(3) have "take (length pat) (drop (Suc i) (x # xs)) \<noteq> pat" by blast
        then show "take (length pat) (drop i xs) \<noteq> pat" by simp
      qed
    qed
    with ne Suc show ?thesis by simp
  qed
qed

lemma indexOf_Some:
  assumes "indexOf s pat k = Some j"
  shows "min k (length s) \<le> j" and "take (length pat) (drop j s) = pat"
proof -
  from assms obtain i where i: "index_of pat (drop (min k (length s)) s) = Some i"
    and j: "j = min k (length s) + i"
    by (auto simp: indexOf_def Let_def)
  from j show "min k (length s) \<le> j" by simp
  from index_of_Some [OF i] j show "take (length pat) (drop j s) = pat"
    by (simp add: add.commute)
qed

lemma find_close_line_None:
  "\<forall>n. a \<le> n \<and> n < endLine \<longrightarrow> trim (line_text st n) \<noteq> js ''$$'' \<Longrightarrow>
   find_close_line st a endLine = None"
proof (induction st a endLine rule: find_close_line.induct)
  case (1 st a endLine)
  show ?case
  proof (cases "a < endLine")
    case False
    then show ?thesis by (subst find_close_line.simps) simp
  next
    case True
    with "1.prems" have ne: "trim (line_text st a) \<noteq> js ''$$''" by simp
    have "find_close_line st (a + 1) endLine = None"
      using "1.IH" [OF True ne] "1.prems" by simp
    with True ne show ?thesis by (subst find_close_line.simps) simp
  qed
qed

lemma find_close_line_first:
  "a \<le> k \<Longrightarrow> k < endLine \<Longrightarrow> trim (line_text st k) = js ''$$'' \<Longrightarrow>
   \<forall>n. a \<le> n \<and> n < k \<longrightarrow> trim (line_text st n) \<noteq> js ''$$'' \<Longrightarrow>
   find_close_line st a endLine = Some k"
proof (induction st a endLine rule: find_close_line.induct)
  case (1 st a endLine)
  from "1.prems" have lt: "a < endLine" by simp
  show ?case
  proof (cases "a = k")
    case True
    with "1.prems" lt show ?thesis by (subst find_close_line.simps) simp
  next
    case False
    with "1.prems" have ak: "a < k" by simp
    with "1.prems" have ne: "trim (line_text st a) \<noteq> js ''$$''" by simp
    have "find_close_line st (a + 1) endLine = Some k"
      using "1.IH" [OF lt ne] ak "1.prems" by simp
    with lt ne show ?thesis by (subst find_close_line.simps) simp
  qed
qed

lemma js_dollars: "js ''$$'' = [0x24, 0x24]"
  by (simp add: js_def)

lemma same_line_dollars:
  assumes j: "sp + 2 \<le> j" "j < mp" and occ: "take 2 (drop j s) = [0x24, 0x24 :: nat]"
    and eol: "charCodeAt s mp \<noteq> Some 0x24"
  shows "take 2 (drop (j - (sp + 2)) (drop 2 (slice s sp mp))) = [0x24, 0x24]"
proof -
  from occ have "length (take 2 (drop j s)) = 2" by simp
  then have len: "j + 2 \<le> length s" by simp
  have "j + 2 \<le> mp"
  proof (rule ccontr)
    assume "\<not> j + 2 \<le> mp"
    with j have mp: "mp = j + 1" by simp
    from occ have "take 2 (drop j s) ! 1 = 0x24" by simp
    with len have "s ! (j + 1) = 0x24" by simp
    with mp len eol show False by (simp add: charCodeAt_def)
  qed
  have a1: "j - (sp + 2) + 2 = j - sp" and a2: "mp - sp - (j - sp) = mp - j"
    and a3: "j - sp + sp = j"
    using j by simp_all
  have "drop (j - (sp + 2)) (drop 2 (slice s sp mp)) = drop (j - sp) (slice s sp mp)"
    by (simp only: drop_drop a1)
  also have "\<dots> = take (mp - j) (drop j s)"
    by (simp only: slice_def drop_take drop_drop a2 a3)
  finally have "drop (j - (sp + 2)) (drop 2 (slice s sp mp)) = take (mp - j) (drop j s)" .
  moreover from \<open>j + 2 \<le> mp\<close> have "take 2 (take (mp - j) (drop j s)) = take 2 (drop j s)"
    by (simp add: min_def)
  ultimately show ?thesis using occ by simp
qed

lemma blockMathMulti_unclosed:
  "\<forall>n. startLine < n \<and> n < endLine \<longrightarrow> trim (line_text st n) \<noteq> js ''$$'' \<Longrightarrow>
   blockMathMulti st startLine endLine indent silent = (False, st)"
proof -
  assume "\<forall>n. startLine < n \<and> n < endLine \<longrightarrow> trim (line_text st n) \<noteq> js ''$$''"
  then have "find_close_line st (startLine + 1) endLine = None"
    by (intro find_close_line_None) simp
  then show ?thesis by (simp add: blockMathMulti_def)
qed

lemma blockMathMulti_closed:
  assumes "startLine < k" and "k < endLine" and "trim (line_text st k) = js ''$$''"
    and "\<forall>n. startLine < n \<and> n < k \<longrightarrow> trim (line_text st n) \<noteq> js ''$$''"
  shows "blockMathMulti st startLine endLine indent False
     = (True,
        (push_block st
           ((new_Token ''math_block'' ''div'' 0)
              \<lparr>content := trim (getLines st (startLine + 1) k indent False),
               map_t := Some (startLine, k + 1)\<rparr>))
        \<lparr>line := k + 1\<rparr>)"
proof -
  have "find_close_line st (startLine + 1) endLine = Some k"
    using assms by (intro find_close_line_first) simp_all
  then show ?thesis by (simp add: blockMathMulti_def)
qed

lemma no_same_line_close:
  assumes ok: "line_ok st startLine"
    and eol: "charCodeAt (src st) (eMarks st ! startLine) \<noteq> Some 0x24"
    and no_same_line: "\<forall>i. take 2 (drop i (drop 2 (line_text st startLine))) \<noteq> js ''$$''"
    and found: "indexOf (src st) (js ''$$'') (bMarks st ! startLine + tShift st ! startLine + 2)
                  = Some j"
  shows "\<not> j < eMarks st ! startLine"
proof
  let ?sp = "bMarks st ! startLine + tShift st ! startLine"
  let ?mp = "eMarks st ! startLine"
  assume lt: "j < ?mp"
  from indexOf_Some [OF found]
  have ge: "min (?sp + 2) (length (src st)) \<le> j" and occ: "take 2 (drop j (src st)) = [0x24, 0x24]"
    by (simp_all add: js_dollars numeral_2_eq_2)
  from occ have "length (take 2 (drop j (src st))) = 2" by simp
  then have "j + 2 \<le> length (src st)" by simp
  with ge have sp: "?sp + 2 \<le> j" by (simp add: min_def split: if_splits)
  have "take 2 (drop (j - (?sp + 2)) (drop 2 (slice (src st) ?sp ?mp))) = [0x24, 0x24]"
    using sp lt occ eol by (rule same_line_dollars)
  with no_same_line show False by (simp add: line_text_ok [OF ok] js_dollars)
qed

lemma blockMathRule_to_multi:
  assumes ok: "line_ok st startLine"
    and opens: "take 2 (line_text st startLine) = js ''$$''"
    and eol: "charCodeAt (src st) (eMarks st ! startLine) \<noteq> Some 0x24"
    and no_same_line: "\<forall>i. take 2 (drop i (drop 2 (line_text st startLine))) \<noteq> js ''$$''"
  shows "blockMathRule st startLine endLine silent
           = blockMathMulti st startLine endLine (tShift st ! startLine) silent"
proof -
  let ?sp = "bMarks st ! startLine + tShift st ! startLine"
  let ?mp = "eMarks st ! startLine"
  from opens have t: "take 2 (take (?mp - ?sp) (drop ?sp (src st))) = [0x24, 0x24]"
    by (simp add: line_text_ok [OF ok] slice_def js_dollars)
  then have "length (take 2 (take (?mp - ?sp) (drop ?sp (src st)))) = 2" by simp
  then have le: "?sp + 2 \<le> ?mp" by simp
  then have "take 2 (take (?mp - ?sp) (drop ?sp (src st))) = take 2 (drop ?sp (src st))"
    by (simp add: min_def)
  with t have sl: "slice (src st) ?sp (?sp + 2) = js ''$$''"
    by (simp add: slice_def js_dollars)
  show ?thesis
  proof (cases "indexOf (src st) (js ''$$'') (?sp + 2)")
    case None
    with le sl show ?thesis by (simp add: blockMathRule_ok [OF ok] Let_def)
  next
    case (Some j)
    from no_same_line_close [OF ok eol no_same_line Some] have "\<not> j < ?mp" .
    with Some le sl show ?thesis by (simp add: blockMathRule_ok [OF ok] Let_def)
  qed
qed

lemma take_drop_append_prefix:
  "i + n \<le> length a \<Longrightarrow> take n (drop i (a @ b)) = take n (drop i a)"
  by simp

lemma blockMathRule_single_line:
  assumes ok: "line_ok st startLine"
    and ltext: "line_text st startLine = js ''$$'' @ m @ js ''$$'' @ rest"
    and first: "\<forall>i<length m. take 2 (drop i (m @ js ''$$'')) \<noteq> js ''$$''"
  shows "blockMathRule st startLine endLine False
     = (True,
        (push_block st
           ((new_Token ''math_block'' ''div'' 0)
              \<lparr>content := trim m, map_t := Some (startLine, startLine + 1)\<rparr>))
        \<lparr>line := startLine + 1\<rparr>)"
proof -
  let ?sp = "bMarks st ! startLine + tShift st ! startLine"
  let ?mp = "eMarks st ! startLine"
  let ?d = "[0x24, 0x24 :: nat]"
  define tl where "tl = drop (?mp - ?sp) (drop ?sp (src st))"
  from ltext have tk: "take (?mp - ?sp) (drop ?sp (src st)) = ?d @ m @ ?d @ rest"
    by (simp add: line_text_ok [OF ok] slice_def js_dollars)
  have "drop ?sp (src st) = take (?mp - ?sp) (drop ?sp (src st)) @ tl"
    unfolding tl_def by (simp only: append_take_drop_id)
  with tk have D: "drop ?sp (src st) = ?d @ m @ ?d @ rest @ tl" by simp
  from tk have "length (take (?mp - ?sp) (drop ?sp (src st))) = length m + 4 + length rest"
    by simp
  then have mp: "?sp + length m + 4 + length rest \<le> ?mp" by simp
  from D have "length (drop ?sp (src st)) = length m + 4 + length rest + length tl" by simp
  then have len: "?sp + length m + 4 \<le> length (src st)" by simp
  have sl: "slice (src st) ?sp (?sp + 2) = js ''$$''"
    by (simp add: slice_def D js_dollars)
  have D2: "drop (?sp + 2) (src st) = m @ ?d @ rest @ tl"
  proof -
    have "drop (?sp + 2) (src st) = drop 2 (drop ?sp (src st))" by (simp add: add.commute)
    also have "\<dots> = m @ ?d @ rest @ tl" unfolding D by simp
    finally show ?thesis .
  qed
  have io: "index_of ?d (m @ ?d @ rest @ tl) = Some (length m)"
  proof (rule index_of_intro)
    show "take (length ?d) (drop (length m) (m @ ?d @ rest @ tl)) = ?d" by simp
    show "length m \<le> length (m @ ?d @ rest @ tl)" by simp
    show "\<forall>i<length m. take (length ?d) (drop i (m @ ?d @ rest @ tl)) \<noteq> ?d"
    proof (intro allI impI)
      fix i assume i: "i < length m"
      with first have "take 2 (drop i (m @ ?d)) \<noteq> ?d" by (simp add: js_dollars)
      moreover have "take 2 (drop i ((m @ ?d) @ rest @ tl)) = take 2 (drop i (m @ ?d))"
        using i by (intro take_drop_append_prefix) simp
      ultimately show "take (length ?d) (drop i (m @ ?d @ rest @ tl)) \<noteq> ?d"
        by (simp add: numeral_2_eq_2)
    qed
  qed
  have mn: "min (?sp + 2) (length (src st)) = ?sp + 2" using len by simp
  have ix: "indexOf (src st) (js ''$$'') (?sp + 2) = Some (?sp + 2 + length m)"
    unfolding indexOf_def Let_def mn D2 js_dollars io by simp
  have ct: "slice (src st) (?sp + 2) (?sp + 2 + length m) = m"
    unfolding slice_def D2 by simp
  from mp have c1: "\<not> ?sp + 2 > ?mp" and c2: "?sp + 2 + length m < ?mp" by simp_all
  show ?thesis
    by (simp only: blockMathRule_ok [OF ok] Let_def c1 sl ix c2 ct if_False if_True
        option.case not_not simp_thms)
qed

lemma blockMathRule_multi_line:
  assumes ok: "line_ok st startLine"
    and opens: "take 2 (line_text st startLine) = js ''$$''"
    and eol: "charCodeAt (src st) (eMarks st ! startLine) \<noteq> Some 0x24"
    and no_same_line: "\<forall>i. take 2 (drop i (drop 2 (line_text st startLine))) \<noteq> js ''$$''"
    and between: "\<forall>n. startLine < n \<and> n < k \<longrightarrow> trim (line_text st n) \<noteq> js ''$$''"
    and k: "startLine < k" "k < endLine"
    and closing: "trim (line_text st k) = js ''$$''"
  shows "blockMathRule st startLine endLine False
     = (True,
        (push_block st
           ((new_Token ''math_block'' ''div'' 0)
              \<lparr>content := trim (getLines st (startLine + 1) k (tShift st ! startLine) False),
               map_t := Some (startLine, k + 1)\<rparr>))
        \<lparr>line := k + 1\<rparr>)"
  using blockMathRule_to_multi [OF ok opens eol no_same_line]
    blockMathMulti_closed [OF k closing between]
  by simp

text \<open>
  Beyond the line tables the rule reads the whole source as the text of a line. On the
  one-line document \<^verbatim>\<open>$$\<close>, asked with \<open>endLine = 3\<close> where the tables have two
  entries, the loop takes the line \<open>2\<close> for a closing line and the rule matches.
\<close>

lemma blockMathRule_beyond_tables:
  "blockMathRule (block_state (js ''$$'') [0, 2] [2, 2] [0, 0]) 0 3 False
     = (True,
        (block_state (js ''$$'') [0, 2] [2, 2] [0, 0])
          \<lparr>line := 3,
           tokens := [\<lparr>type_t = ''math_block'', tag = ''div'', nesting = 0, content = [],
                       map_t = Some (0, 3), info = []\<rparr>]\<rparr>)"
  by (simp add: blockMathRule_def blockMathMulti_def Let_def block_state_def startPos_of_def
      arr_get_def js_def slice_def indexOf_def find_close_line.simps line_text_def
      getLines_def getLine_def skip_indent.simps charCodeAt_def isSpace_def
      push_block_def new_Token_def trim_def is_ws_def upt_conv_Cons)

lemma no_dollar_no_delimiter: "0x24 \<notin> set xs \<Longrightarrow> take 2 (drop i xs) \<noteq> js ''$$''"
proof
  assume "0x24 \<notin> set xs" and "take 2 (drop i xs) = js ''$$''"
  then have "0x24 \<in> set (take 2 (drop i xs))" by (simp add: js_dollars)
  then have "0x24 \<in> set xs" by (meson in_set_takeD in_set_dropD)
  with \<open>0x24 \<notin> set xs\<close> show False by simp
qed

section \<open>Properties of the renderers\<close>

lemma fence_returns: "\<exists>html. fence h token = Inr html"
  by (auto simp: fence_def highlight_def try_catch_def Let_def split: sum.splits)

section \<open>Blank math\<close>

text \<open>
  C2, as amended. The claim holds for the inline rule and fails for the block rule.
  Inline: when the dollar sign at which the rule is asked is followed by a later dollar sign
  before \<open>posMax\<close>, with nothing or only white space between the two, the rule declines:
  it returns \<open>false\<close> and leaves the state as it was, so no math token comes from an
  adjacent \<^verbatim>\<open>$$\<close> or from a stray \<^verbatim>\<open>$ $\<close>.
\<close>

theorem inline_blank_span_declines:
  assumes "pos st < e" and "e < posMax st" and "charCodeAt (src_inl st) e = Some 0x24"
    and "\<forall>i. pos st < i \<and> i < e \<longrightarrow> (\<exists>w. charCodeAt (src_inl st) i = Some w \<and> is_ws w)"
  shows "inlineMathRule st silent = (False, st)"
  using assms by (rule inlineMathRule_blank)

theorem inline_blank_span_declines_witness:
  "inlineMathRule (inline_state (js ''$ $'') 0) False = (False, inline_state (js ''$ $'') 0)
   \<and> inlineMathRule (inline_state (js ''a $$ b'') 2) False
       = (False, inline_state (js ''a $$ b'') 2)"
proof -
  have a: "inlineMathRule (inline_state (js ''$ $'') 0) False
           = (False, inline_state (js ''$ $'') 0)"
    by (rule inline_blank_span_declines [where e = 2])
       (auto simp: inline_state_def js_def charCodeAt_def is_ws_def)
  have b: "inlineMathRule (inline_state (js ''a $$ b'') 2) False
           = (False, inline_state (js ''a $$ b'') 2)"
    by (rule inline_blank_span_declines [where e = 3])
       (auto simp: inline_state_def js_def charCodeAt_def)
  from a b show ?thesis by simp
qed

text \<open>
  C2, the counterexample. The block rule has no check for empty content: on the one-line
  document \<^verbatim>\<open>$$ $$\<close> it matches and pushes one \<open>math_block\<close> token whose content is the
  empty string.
\<close>

theorem block_empty_math_counterexample:
  "blockMathRule (block_state (js ''$$ $$'') [0, 5] [5, 5] [0, 0]) 0 1 False
     = (True,
        (block_state (js ''$$ $$'') [0, 5] [5, 5] [0, 0])
          \<lparr>line := 1,
           tokens := [\<lparr>type_t = ''math_block'', tag = ''div'', nesting = 0, content = [],
                       map_t = Some (0, 1), info = []\<rparr>]\<rparr>)
   \<and> math_count (tokens (snd (blockMathRule
        (block_state (js ''$$ $$'') [0, 5] [5, 5] [0, 0]) 0 1 False))) = 1"
  by (simp add: blockMathRule_def Let_def block_state_def startPos_of_def arr_get_def js_def
      slice_def indexOf_def
      push_block_def new_Token_def trim_def is_ws_def math_count_def is_math_def)

section \<open>Unterminated block math\<close>

text \<open>
  C3. Let the line \<open>startLine\<close> be a line of the state that begins, after its indentation,
  with \<^verbatim>\<open>$$\<close>; let no \<^verbatim>\<open>$$\<close> occur in the rest of that line; and let no line after it
  and before \<open>endLine\<close> have \<^verbatim>\<open>$$\<close> as its trimmed text, where the text of a line is what
  the rule reads for it. Then the block-math rule declines: it returns \<open>false\<close> and the
  state is as it was, with no token pushed and \<open>line\<close> not advanced, so the host parser
  goes on to its later rules for this line. The line table is the host parser's: the end
  mark of a line is at its line feed or at the end of the source.
\<close>

theorem unterminated_block_declines:
  assumes ok: "line_ok st startLine"
    and opens: "take 2 (line_text st startLine) = js ''$$''"
    and eol: "charCodeAt (src st) (eMarks st ! startLine) = None
              \<or> charCodeAt (src st) (eMarks st ! startLine) = Some 0x0A"
    and no_same_line: "\<forall>i. take 2 (drop i (drop 2 (line_text st startLine))) \<noteq> js ''$$''"
    and no_closing_line:
      "\<forall>n. startLine < n \<and> n < endLine \<longrightarrow> trim (line_text st n) \<noteq> js ''$$''"
  shows "blockMathRule st startLine endLine silent = (False, st)"
proof -
  from eol have eol': "charCodeAt (src st) (eMarks st ! startLine) \<noteq> Some 0x24" by auto
  have "blockMathRule st startLine endLine silent
          = blockMathMulti st startLine endLine (tShift st ! startLine) silent"
    using ok opens eol' no_same_line by (rule blockMathRule_to_multi)
  also have "\<dots> = (False, st)"
    using no_closing_line by (rule blockMathMulti_unclosed)
  finally show ?thesis .
qed

theorem unterminated_block_declines_witness:
  "blockMathRule (block_state (js ''$$ a'' @ [0x0A] @ js ''b'') [0, 5, 6] [4, 6, 6] [0, 0, 0]) 0 2 False
     = (False, block_state (js ''$$ a'' @ [0x0A] @ js ''b'') [0, 5, 6] [4, 6, 6] [0, 0, 0])"
proof -
  let ?st = "block_state (js ''$$ a'' @ [0x0A] @ js ''b'') [0, 5, 6] [4, 6, 6] [0, 0, 0]"
  have h0: "line_ok ?st 0"
    by (simp add: line_ok_def block_state_def)
  have l0: "line_text ?st 0 = js ''$$ a''" and l1: "line_text ?st 1 = js ''b''"
    by (simp_all add: line_text_def startPos_of_def arr_get_def block_state_def slice_def js_def)
  have h1: "take 2 (line_text ?st 0) = js ''$$''"
    unfolding l0 by (simp add: js_def)
  have h2: "charCodeAt (src ?st) (eMarks ?st ! 0) = None
            \<or> charCodeAt (src ?st) (eMarks ?st ! 0) = Some 0x0A"
    by (simp add: block_state_def charCodeAt_def js_def)
  have h3: "\<forall>i. take 2 (drop i (drop 2 (line_text ?st 0))) \<noteq> js ''$$''"
    unfolding l0 by (intro allI no_dollar_no_delimiter) (simp add: js_def)
  have h4: "\<forall>n. 0 < n \<and> n < 2 \<longrightarrow> trim (line_text ?st n) \<noteq> js ''$$''"
  proof (intro allI impI)
    fix n :: nat assume "0 < n \<and> n < 2"
    then have "n = 1" by simp
    then show "trim (line_text ?st n) \<noteq> js ''$$''"
      unfolding \<open>n = 1\<close> l1 by (simp add: js_def trim_def is_ws_def)
  qed
  show ?thesis by (rule unterminated_block_declines [OF h0 h1 h2 h3 h4])
qed

section \<open>Escaped dollar signs\<close>

text \<open>
  C4. A dollar sign that comes right after a backslash is never a delimiter of inline math.
  As an opening: asked at such a dollar sign, the rule declines and leaves the state as it
  was. As a closing: whenever the rule matches, the dollar sign at which the span ends does
  not come after a backslash. And on the text \<^verbatim>\<open>\$10\<close> the rule declines at every
  position, whatever is pending, so it emits no math token there and the text is left to
  the host parser's escape rule.
\<close>

theorem escaped_dollar_never_delimiter:
  "(0 < pos st1 \<and> charCodeAt (src_inl st1) (pos st1 - 1) = Some 0x5C \<longrightarrow>
      inlineMathRule st1 silent = (False, st1))
   \<and> (inlineMathRule st2 silent = (True, st2') \<longrightarrow>
        (\<exists>e. pos st2' = e + 1 \<and> charCodeAt (src_inl st2) e = Some 0x24
             \<and> charCodeAt (src_inl st2) (e - 1) \<noteq> Some 0x5C))
   \<and> inlineMathRule
        \<lparr>src_inl = 0x5C # js ''$10'', pos = p, posMax = 4, pending = pd, tokens_inl = ts\<rparr> silent
       = (False,
          \<lparr>src_inl = 0x5C # js ''$10'', pos = p, posMax = 4, pending = pd, tokens_inl = ts\<rparr>)"
proof (intro conjI impI)
  assume "0 < pos st1 \<and> charCodeAt (src_inl st1) (pos st1 - 1) = Some 0x5C"
  then show "inlineMathRule st1 silent = (False, st1)"
    by (simp add: inlineMathRule_def Let_def)
next
  assume m: "inlineMathRule st2 silent = (True, st2')"
  let ?e = "find_closing (src_inl st2) (pos st2 + 1) (posMax st2)"
  have lt: "?e < posMax st2" and eq: "pos st2' = ?e + 1"
    using inlineMathRule_matches [OF m] by (simp_all split: if_splits)
  from find_closing_delim [OF lt] eq
  show "\<exists>e. pos st2' = e + 1 \<and> charCodeAt (src_inl st2) e = Some 0x24
             \<and> charCodeAt (src_inl st2) (e - 1) \<noteq> Some 0x5C"
    by blast
next
  show "inlineMathRule
        \<lparr>src_inl = 0x5C # js ''$10'', pos = p, posMax = 4, pending = pd, tokens_inl = ts\<rparr> silent
       = (False,
          \<lparr>src_inl = 0x5C # js ''$10'', pos = p, posMax = 4, pending = pd, tokens_inl = ts\<rparr>)"
  proof (cases "p = 1")
    case True
    then show ?thesis by (simp add: inlineMathRule_def Let_def charCodeAt_def js_def)
  next
    case False
    then show ?thesis by (simp add: inlineMathRule_def Let_def charCodeAt_escaped_10)
  qed
qed

theorem escaped_dollar_never_delimiter_witness:
  "inlineMathRule (inline_state (0x5C # js ''$10'') 1) False
     = (False, inline_state (0x5C # js ''$10'') 1)
   \<and> inlineMathRule (inline_state (js ''$a'' @ [0x5C] @ js ''$b$'') 0) False
     = (True,
        \<lparr>src_inl = js ''$a'' @ [0x5C] @ js ''$b$'', pos = 6, posMax = 6, pending = [],
         tokens_inl = [(new_Token ''math_inline'' ''span'' 0)
                         \<lparr>content := js ''a'' @ [0x5C] @ js ''$b''\<rparr>]\<rparr>)
   \<and> charCodeAt (js ''$a'' @ [0x5C] @ js ''$b$'') 5 = Some 0x24
   \<and> charCodeAt (js ''$a'' @ [0x5C] @ js ''$b$'') 4 \<noteq> Some 0x5C
   \<and> charCodeAt (js ''$a'' @ [0x5C] @ js ''$b$'') 3 = Some 0x24
   \<and> charCodeAt (js ''$a'' @ [0x5C] @ js ''$b$'') 2 = Some 0x5C"
proof -
  let ?st1 = "inline_state (0x5C # js ''$10'') 1"
  let ?st2 = "inline_state (js ''$a'' @ [0x5C] @ js ''$b$'') 0"
  let ?st2' = "\<lparr>src_inl = js ''$a'' @ [0x5C] @ js ''$b$'', pos = 6, posMax = 6, pending = [],
         tokens_inl = [(new_Token ''math_inline'' ''span'' 0)
                         \<lparr>content := js ''a'' @ [0x5C] @ js ''$b''\<rparr>]\<rparr>"
  have h1: "0 < pos ?st1 \<and> charCodeAt (src_inl ?st1) (pos ?st1 - 1) = Some 0x5C"
    by (simp add: inline_state_def charCodeAt_def)
  have h2: "inlineMathRule ?st2 False = (True, ?st2')"
    by (simp add: inlineMathRule_def Let_def inline_state_def js_def charCodeAt_def
        find_closing.simps slice_def trim_def is_ws_def push_inline_def new_Token_def)
  show ?thesis
    using h1 h2 escaped_dollar_never_delimiter [of ?st1 False ?st2 ?st2' 0 "[]" "[]"]
    by (simp add: inline_state_def js_def charCodeAt_def)
qed

section \<open>The two forms of block math\<close>

text \<open>
  C5, as amended. The two forms agree when the closing marker of the single-line form is
  the first \<^verbatim>\<open>$$\<close> after the opening one. Single-line form: the text of the line is
  \<^verbatim>\<open>$$\<close>, the math source \<open>m\<close>, \<^verbatim>\<open>$$\<close> and whatever follows, and no \<^verbatim>\<open>$$\<close> begins
  inside \<open>m\<close> (so \<open>m\<close> holds no \<^verbatim>\<open>$$\<close> and does not end in a dollar sign). Multi-line
  form: the line begins with \<^verbatim>\<open>$$\<close> and holds no other, a later line \<open>k\<close> before
  \<open>endLine\<close> is the first whose trimmed text is \<^verbatim>\<open>$$\<close>, and the joined text of the lines
  in between has the same trimmed text as \<open>m\<close>. Then each form matches and pushes exactly
  one token, of type \<open>math_block\<close>, whose content is the trimmed \<open>m\<close>; the first spans one
  line, the second the lines up to and including \<open>k\<close>. The render rule gives the same
  fragment for both tokens, and when the math library returns markup that fragment is the
  one block-math container around it. The witness is the pair \<^verbatim>\<open>$$x^2$$\<close> and \<^verbatim>\<open>$$\<close>,
  \<^verbatim>\<open> x^2 \<close>, \<^verbatim>\<open>$$\<close>: both give the content \<^verbatim>\<open>x^2\<close>.
\<close>

theorem block_forms_agree:
  assumes single_ok: "line_ok st1 l1"
    and single_text: "line_text st1 l1 = js ''$$'' @ m @ js ''$$'' @ rest"
    and single_first: "\<forall>i<length m. take 2 (drop i (m @ js ''$$'')) \<noteq> js ''$$''"
    and multi_ok: "line_ok st2 l2"
    and multi_opens: "take 2 (line_text st2 l2) = js ''$$''"
    and multi_eol: "charCodeAt (src st2) (eMarks st2 ! l2) = None
                    \<or> charCodeAt (src st2) (eMarks st2 ! l2) = Some 0x0A"
    and multi_rest: "\<forall>i. take 2 (drop i (drop 2 (line_text st2 l2))) \<noteq> js ''$$''"
    and multi_between: "\<forall>n. l2 < n \<and> n < k \<longrightarrow> trim (line_text st2 n) \<noteq> js ''$$''"
    and multi_close: "l2 < k \<and> k < e2 \<and> trim (line_text st2 k) = js ''$$''"
    and same_source: "trim (getLines st2 (l2 + 1) k (tShift st2 ! l2) False) = trim m"
  shows "blockMathRule st1 l1 e1 False
           = (True,
              st1\<lparr>tokens := tokens st1 @
                      [\<lparr>type_t = ''math_block'', tag = ''div'', nesting = 0, content = trim m,
                        map_t = Some (l1, l1 + 1), info = []\<rparr>],
                   line := l1 + 1\<rparr>)
         \<and> blockMathRule st2 l2 e2 False
           = (True,
              st2\<lparr>tokens := tokens st2 @
                      [\<lparr>type_t = ''math_block'', tag = ''div'', nesting = 0, content = trim m,
                        map_t = Some (l2, k + 1), info = []\<rparr>],
                   line := k + 1\<rparr>)
         \<and> math_block kx
              \<lparr>type_t = ''math_block'', tag = ''div'', nesting = 0, content = trim m,
               map_t = Some (l1, l1 + 1), info = []\<rparr>
           = math_block kx
              \<lparr>type_t = ''math_block'', tag = ''div'', nesting = 0, content = trim m,
               map_t = Some (l2, k + 1), info = []\<rparr>
         \<and> (kx (trim m) True = Inr r \<longrightarrow>
              math_block kx
                \<lparr>type_t = ''math_block'', tag = ''div'', nesting = 0, content = trim m,
                 map_t = Some (l2, k + 1), info = []\<rparr>
              = Inr (js ''<div class=\"katex-block\">'' @ r @ js ''</div>''))"
proof (intro conjI impI)
  show "blockMathRule st1 l1 e1 False
           = (True,
              st1\<lparr>tokens := tokens st1 @
                      [\<lparr>type_t = ''math_block'', tag = ''div'', nesting = 0, content = trim m,
                        map_t = Some (l1, l1 + 1), info = []\<rparr>],
                   line := l1 + 1\<rparr>)"
    using blockMathRule_single_line [OF single_ok single_text single_first, of e1]
    by (simp add: push_block_def new_Token_def)
next
  from multi_eol have eol': "charCodeAt (src st2) (eMarks st2 ! l2) \<noteq> Some 0x24" by auto
  from multi_close have c: "l2 < k" "k < e2" "trim (line_text st2 k) = js ''$$''" by simp_all
  show "blockMathRule st2 l2 e2 False
           = (True,
              st2\<lparr>tokens := tokens st2 @
                      [\<lparr>type_t = ''math_block'', tag = ''div'', nesting = 0, content = trim m,
                        map_t = Some (l2, k + 1), info = []\<rparr>],
                   line := k + 1\<rparr>)"
    using blockMathRule_multi_line [OF multi_ok multi_opens eol' multi_rest multi_between c]
      same_source
    by (simp add: push_block_def new_Token_def)
next
  show "math_block kx
              \<lparr>type_t = ''math_block'', tag = ''div'', nesting = 0, content = trim m,
               map_t = Some (l1, l1 + 1), info = []\<rparr>
           = math_block kx
              \<lparr>type_t = ''math_block'', tag = ''div'', nesting = 0, content = trim m,
               map_t = Some (l2, k + 1), info = []\<rparr>"
    by (simp add: math_block_def)
next
  assume "kx (trim m) True = Inr r"
  then show "math_block kx
                \<lparr>type_t = ''math_block'', tag = ''div'', nesting = 0, content = trim m,
                 map_t = Some (l2, k + 1), info = []\<rparr>
              = Inr (js ''<div class=\"katex-block\">'' @ r @ js ''</div>'')"
    by (simp add: math_block_def try_catch_def)
qed

theorem block_forms_agree_witness:
  "blockMathRule doc_single_line 0 1 False
     = (True,
        doc_single_line
          \<lparr>tokens := [\<lparr>type_t = ''math_block'', tag = ''div'', nesting = 0, content = js ''x^2'',
                       map_t = Some (0, 1), info = []\<rparr>],
           line := 1\<rparr>)
   \<and> blockMathRule doc_multi_line 0 3 False
     = (True,
        doc_multi_line
          \<lparr>tokens := [\<lparr>type_t = ''math_block'', tag = ''div'', nesting = 0, content = js ''x^2'',
                       map_t = Some (0, 3), info = []\<rparr>],
           line := 3\<rparr>)
   \<and> math_block (\<lambda>c d. Inr (js ''<span class=\"katex\">'' @ c @ js ''</span>''))
        \<lparr>type_t = ''math_block'', tag = ''div'', nesting = 0, content = js ''x^2'',
         map_t = Some (0, 3), info = []\<rparr>
     = Inr (js ''<div class=\"katex-block\"><span class=\"katex\">x^2</span></div>'')"
proof -
  let ?m = "js ''x^2''"
  have tm: "trim ?m = ?m" by (simp add: trim_def is_ws_def js_def)
  have s_ok: "line_ok doc_single_line 0"
    by (simp add: line_ok_def doc_single_line_def block_state_def)
  have s_text: "line_text doc_single_line 0 = js ''$$'' @ ?m @ js ''$$'' @ []"
    by (simp add: line_text_def startPos_of_def arr_get_def doc_single_line_def block_state_def
        slice_def js_def)
  have s_first: "\<forall>i<length ?m. take 2 (drop i (?m @ js ''$$'')) \<noteq> js ''$$''"
    by (auto simp: js_def less_Suc_eq numeral_3_eq_3)
  have m_ok: "line_ok doc_multi_line 0"
    by (simp add: line_ok_def doc_multi_line_def block_state_def)
  have l0: "line_text doc_multi_line 0 = js ''$$''"
    and l1: "line_text doc_multi_line 1 = js ''x^2 ''"
    and l2: "line_text doc_multi_line 2 = js ''$$''"
    by (simp_all add: line_text_def startPos_of_def arr_get_def doc_multi_line_def block_state_def
        slice_def js_def)
  have m_opens: "take 2 (line_text doc_multi_line 0) = js ''$$''"
    unfolding l0 by (simp add: js_def)
  have m_eol: "charCodeAt (src doc_multi_line) (eMarks doc_multi_line ! 0) = None
               \<or> charCodeAt (src doc_multi_line) (eMarks doc_multi_line ! 0) = Some 0x0A"
    by (simp add: doc_multi_line_def block_state_def charCodeAt_def js_def)
  have m_rest: "\<forall>i. take 2 (drop i (drop 2 (line_text doc_multi_line 0))) \<noteq> js ''$$''"
    unfolding l0 by (simp add: js_def)
  have m_between: "\<forall>n. 0 < n \<and> n < 2 \<longrightarrow> trim (line_text doc_multi_line n) \<noteq> js ''$$''"
  proof (intro allI impI)
    fix n :: nat assume "0 < n \<and> n < 2"
    then have "n = 1" by simp
    then show "trim (line_text doc_multi_line n) \<noteq> js ''$$''"
      unfolding \<open>n = 1\<close> l1 by (simp add: js_def trim_def is_ws_def)
  qed
  have m_close: "(0::nat) < 2 \<and> (2::nat) < 3 \<and> trim (line_text doc_multi_line 2) = js ''$$''"
    unfolding l2 by (simp add: js_def trim_def is_ws_def)
  have m_src: "trim (getLines doc_multi_line (0 + 1) 2 (tShift doc_multi_line ! 0) False) = trim ?m"
    unfolding tm
    by (simp add: getLines_def getLine_def skip_indent.simps arr_get_def doc_multi_line_def
        block_state_def slice_def js_def trim_def is_ws_def upt_conv_Cons)
  have k: "(\<lambda>c d. Inr (js ''<span class=\"katex\">'' @ c @ js ''</span>'')) (trim ?m) True
             = (Inr (js ''<span class=\"katex\">x^2</span>'') :: js_thrown + jsstring)"
    unfolding tm by (simp add: js_def)
  show ?thesis
    using block_forms_agree [OF s_ok s_text s_first m_ok m_opens m_eol m_rest m_between m_close
        m_src, of 1 "\<lambda>c d. Inr (js ''<span class=\"katex\">'' @ c @ js ''</span>'')"
        "js ''<span class=\"katex\">x^2</span>''"] k
    unfolding tm
    by (simp add: doc_single_line_def doc_multi_line_def block_state_def js_def)
qed

text \<open>
  C5, the counterexample. Take as math source the digit five, a backslash and a dollar
  sign. In the one-line document the search for \<^verbatim>\<open>$$\<close> after the opening marker stops
  at the dollar sign of the source, which forms a pair with the first dollar sign of the
  closing marker, and the content is the digit and the backslash only. The three-line
  document with the same source gives the whole source as content.
\<close>

theorem block_forms_differ_counterexample:
  "map content (tokens (snd (blockMathRule
       (block_state (js ''$$5'' @ [0x5C] @ js ''$$$'') [0, 7] [7, 7] [0, 0]) 0 1 False)))
     = [js ''5'' @ [0x5C]]
   \<and> map content (tokens (snd (blockMathRule
       (block_state (js ''$$'' @ [0x0A] @ js ''5'' @ [0x5C, 0x24] @ [0x0A] @ js ''$$'')
          [0, 3, 7, 9] [2, 6, 9, 9] [0, 0, 0, 0]) 0 3 False)))
     = [js ''5'' @ [0x5C, 0x24]]"
  by (simp add: blockMathRule_def blockMathMulti_def Let_def block_state_def startPos_of_def
      arr_get_def js_def slice_def indexOf_def find_close_line.simps line_text_def
      getLines_def getLine_def skip_indent.simps charCodeAt_def isSpace_def
      push_block_def new_Token_def trim_def is_ws_def)

section \<open>Diagram fences\<close>

text \<open>
  C6. For a fence token whose trimmed info string is \<^verbatim>\<open>mermaid\<close>, the fence renderer
  returns the container \<^verbatim>\<open><div class="mermaid">\<close> around the escaped body and nothing
  else (no \<^verbatim>\<open>pre\<close>, no \<^verbatim>\<open>code\<close>); the escaped body holds no angle bracket and no
  double quote, and unescaping it gives the body back. The round trip holds for every
  string: \<open>unescapeHtml (escapeHtml s) = s\<close>.
\<close>

theorem mermaid_fence_roundtrip:
  "(trim (info token) = js ''mermaid'' \<longrightarrow>
      fence h token
        = Inr (js ''<div class=\"mermaid\">'' @ escapeHtml (content token) @ js ''</div>'')
      \<and> set (escapeHtml (content token)) \<inter> {0x3C, 0x3E, 0x22} = {}
      \<and> unescapeHtml (escapeHtml (content token)) = content token)
   \<and> unescapeHtml (escapeHtml s) = s"
proof (intro conjI impI)
  assume "trim (info token) = js ''mermaid''"
  then show "fence h token
        = Inr (js ''<div class=\"mermaid\">'' @ escapeHtml (content token) @ js ''</div>'')"
    by (simp add: fence_def)
next
  show "set (escapeHtml (content token)) \<inter> {0x3C, 0x3E, 0x22} = {}"
    by (rule escapeHtml_no_markup)
next
  show "unescapeHtml (escapeHtml (content token)) = content token"
    by (rule unescapeHtml_escapeHtml)
next
  show "unescapeHtml (escapeHtml s) = s"
    by (rule unescapeHtml_escapeHtml)
qed

theorem mermaid_fence_roundtrip_witness:
  "fence \<lparr>getLanguage = (\<lambda>l. False), highlight_hljs = (\<lambda>s l. Inr s)\<rparr>
     ((new_Token ''fence'' ''code'' 0)
        \<lparr>info := js ''mermaid'', content := js ''graph TD'' @ [0x0A] @ js ''    A --> B'' @ [0x0A]\<rparr>)
     = Inr (js ''<div class=\"mermaid\">graph TD'' @ [0x0A] @ js ''    A --&gt; B'' @ [0x0A]
            @ js ''</div>'')
   \<and> unescapeHtml (js ''graph TD'' @ [0x0A] @ js ''    A --&gt; B'' @ [0x0A])
       = js ''graph TD'' @ [0x0A] @ js ''    A --> B'' @ [0x0A]"
proof -
  let ?tok = "(new_Token ''fence'' ''code'' 0)
        \<lparr>info := js ''mermaid'', content := js ''graph TD'' @ [0x0A] @ js ''    A --> B'' @ [0x0A]\<rparr>"
  have h: "trim (info ?tok) = js ''mermaid''"
    by (simp add: new_Token_def trim_def is_ws_def js_def)
  have e: "escapeHtml (content ?tok) = js ''graph TD'' @ [0x0A] @ js ''    A --&gt; B'' @ [0x0A]"
    by (simp add: new_Token_def escapeHtml_def replace_g_def js_def)
  show ?thesis
    using h mermaid_fence_roundtrip
      [of ?tok "\<lparr>getLanguage = (\<lambda>l. False), highlight_hljs = (\<lambda>s l. Inr s)\<rparr>" "[]"]
    unfolding e by (simp add: new_Token_def js_def)
qed

text \<open>
  C7. The claim asks that the fence renderer return well-formed HTML for every info
  string, with all raw content escaped. The code writes the trimmed info string into the
  \<^verbatim>\<open>class\<close> attribute as it is. For the info string \<^verbatim>\<open>a"><b>\<close> and the body \<^verbatim>\<open>c\<close>
  with its line feed, whatever the highlighter does, the double quote of the info string ends the attribute
  value and its \<^verbatim>\<open><b>\<close> stands in the output as markup. The renderer does return (it
  never throws).
\<close>

theorem fence_info_not_escaped:
  "(\<exists>code. fence h ((new_Token ''fence'' ''code'' 0)
                      \<lparr>info := js ''a\"><b>'', content := js ''c'' @ [0x0A]\<rparr>)
      = Inr (js ''<pre class=\"hljs\"><code class=\"language-a\"><b>\">'' @ code @ js ''</code></pre>''))
   \<and> fence \<lparr>getLanguage = (\<lambda>l. False), highlight_hljs = (\<lambda>s l. Inr s)\<rparr>
       ((new_Token ''fence'' ''code'' 0)\<lparr>info := js ''a\"><b>'', content := js ''c'' @ [0x0A]\<rparr>)
      = Inr (js ''<pre class=\"hljs\"><code class=\"language-a\"><b>\">c'' @ [0x0A]
             @ js ''</code></pre>'')"
proof
  let ?tok = "(new_Token ''fence'' ''code'' 0)
                \<lparr>info := js ''a\"><b>'', content := js ''c'' @ [0x0A]\<rparr>"
  have t: "trim (info ?tok) = js ''a\"><b>''"
    by (simp add: new_Token_def trim_def is_ws_def js_def)
  obtain html where "highlight h (content ?tok) (js ''a\"><b>'') = Inr html"
    by (cases "highlight h (content ?tok) (js ''a\"><b>'')")
       (auto simp: highlight_def try_catch_def split: if_splits sum.splits)
  then show "\<exists>code. fence h ?tok
      = Inr (js ''<pre class=\"hljs\"><code class=\"language-a\"><b>\">'' @ code @ js ''</code></pre>'')"
    unfolding fence_def t by (simp add: Let_def js_def)
  show "fence \<lparr>getLanguage = (\<lambda>l. False), highlight_hljs = (\<lambda>s l. Inr s)\<rparr> ?tok
      = Inr (js ''<pre class=\"hljs\"><code class=\"language-a\"><b>\">c'' @ [0x0A]
             @ js ''</code></pre>'')"
    unfolding fence_def t
    by (simp add: Let_def js_def highlight_def escapeHtml_def replace_g_def new_Token_def)
qed

section \<open>Math errors\<close>

text \<open>
  C8. The render rules of \<open>math_block\<close> and \<open>math_inline\<close> tokens always return a
  fragment and never propagate what the math library throws. When
  \<^verbatim>\<open>renderToString\<close> throws, the block rule returns a \<^verbatim>\<open>div\<close> and the inline rule a
  \<^verbatim>\<open>span\<close> of class \<^verbatim>\<open>math-error\<close> that holds the escaped message: the message of the
  \<^verbatim>\<open>Error\<close> thrown, or \<^verbatim>\<open>Unknown error\<close> when the thrown value is not an
  \<^verbatim>\<open>Error\<close>.
\<close>

theorem math_render_recovers:
  "(\<exists>html. math_block k tok = Inr html) \<and> (\<exists>html. math_inline k tok = Inr html)
   \<and> (k (content tok) True = Inl e \<longrightarrow>
        math_block k tok
          = Inr (js ''<div class=\"math-error\">Math error: '' @ escapeHtml (errorMessage e)
                 @ js ''</div>''))
   \<and> (k (content tok) False = Inl e \<longrightarrow>
        math_inline k tok
          = Inr (js ''<span class=\"math-error\">Math error: '' @ escapeHtml (errorMessage e)
                 @ js ''</span>''))
   \<and> errorMessage (ErrorObj m) = m
   \<and> errorMessage NonError = js ''Unknown error''"
proof (intro conjI impI)
  show "\<exists>html. math_block k tok = Inr html"
    by (cases "k (content tok) True") (simp_all add: math_block_def try_catch_def)
next
  show "\<exists>html. math_inline k tok = Inr html"
    by (cases "k (content tok) False") (simp_all add: math_inline_def try_catch_def)
next
  assume "k (content tok) True = Inl e"
  then show "math_block k tok
          = Inr (js ''<div class=\"math-error\">Math error: '' @ escapeHtml (errorMessage e)
                 @ js ''</div>'')"
    by (simp add: math_block_def try_catch_def)
next
  assume "k (content tok) False = Inl e"
  then show "math_inline k tok
          = Inr (js ''<span class=\"math-error\">Math error: '' @ escapeHtml (errorMessage e)
                 @ js ''</span>'')"
    by (simp add: math_inline_def try_catch_def)
next
  show "errorMessage (ErrorObj m) = m" by (simp add: errorMessage_def)
next
  show "errorMessage NonError = js ''Unknown error''" by (simp add: errorMessage_def)
qed

theorem math_render_recovers_witness:
  "math_block (\<lambda>c d. Inl (ErrorObj (js ''bad <x>''))) ((new_Token ''math_block'' ''div'' 0)\<lparr>content := js ''x''\<rparr>)
     = Inr (js ''<div class=\"math-error\">Math error: bad &lt;x&gt;</div>'')
   \<and> math_inline (\<lambda>c d. Inl (ErrorObj (js ''bad <x>''))) ((new_Token ''math_block'' ''div'' 0)\<lparr>content := js ''x''\<rparr>)
     = Inr (js ''<span class=\"math-error\">Math error: bad &lt;x&gt;</span>'')"
proof -
  have e: "escapeHtml (errorMessage (ErrorObj (js ''bad <x>''))) = js ''bad &lt;x&gt;''"
    by (simp add: errorMessage_def escapeHtml_def replace_g_def js_def)
  show ?thesis
    using math_render_recovers [of "\<lambda>c d. Inl (ErrorObj (js ''bad <x>''))"
        "(new_Token ''math_block'' ''div'' 0)\<lparr>content := js ''x''\<rparr>" "ErrorObj (js ''bad <x>'')"]
    unfolding e by (simp add: js_def)
qed

section \<open>Silent mode\<close>

text \<open>
  C10. In silent mode the inline-math rule pushes no token, yet whenever it matches it
  moves \<open>pos\<close> just past the closing dollar sign, to the same position as the run that
  is not silent: the state it leaves differs from the one it was given in \<open>pos\<close> only.
  The block-math rule in silent mode leaves the whole state as it was (no token pushed,
  \<open>line\<close> untouched), whatever it returns.
\<close>

theorem silent_mode_frame:
  "(inlineMathRule st True = (True, st') \<longrightarrow>
      (\<exists>e. pos st < e \<and> e < posMax st \<and> charCodeAt (src_inl st) e = Some 0x24
           \<and> st' = st\<lparr>pos := e + 1\<rparr>)
      \<and> tokens_inl st' = tokens_inl st
      \<and> pos st' = pos (snd (inlineMathRule st False)))
   \<and> snd (blockMathRule bst startLine endLine True) = bst"
proof -
  have "\<exists>e. pos st < e \<and> e < posMax st \<and> charCodeAt (src_inl st) e = Some 0x24
           \<and> st' = st\<lparr>pos := e + 1\<rparr>"
    and "tokens_inl st' = tokens_inl st"
    and "pos st' = pos (snd (inlineMathRule st False))"
    if m: "inlineMathRule st True = (True, st')"
  proof -
    let ?e = "find_closing (src_inl st) (pos st + 1) (posMax st)"
    have lt: "?e < posMax st" and eq: "st' = st\<lparr>pos := ?e + 1\<rparr>"
      using inlineMathRule_matches [OF m] by simp_all
    have "pos st + 1 \<le> ?e" by (rule find_closing_ge)
    moreover have "charCodeAt (src_inl st) ?e = Some 0x24"
      using find_closing_delim [OF lt] by simp
    ultimately show "\<exists>e. pos st < e \<and> e < posMax st \<and> charCodeAt (src_inl st) e = Some 0x24
           \<and> st' = st\<lparr>pos := e + 1\<rparr>"
      using lt eq by (intro exI [of _ ?e]) simp
    show "tokens_inl st' = tokens_inl st" using eq by simp
    show "pos st' = pos (snd (inlineMathRule st False))"
      using m eq by (auto simp: inlineMathRule_def Let_def split: if_splits)
  qed
  then show ?thesis by (simp add: blockMathRule_silent)
qed

theorem silent_mode_frame_witness:
  "inlineMathRule (inline_state (js ''$x$'') 0) True = (True, (inline_state (js ''$x$'') 0)\<lparr>pos := 3\<rparr>)
   \<and> tokens_inl ((inline_state (js ''$x$'') 0)\<lparr>pos := 3\<rparr>) = []
   \<and> pos (snd (inlineMathRule (inline_state (js ''$x$'') 0) False)) = 3
   \<and> snd (blockMathRule (block_state (js ''$$x$$'') [0, 5] [5, 5] [0, 0]) 0 1 True)
       = block_state (js ''$$x$$'') [0, 5] [5, 5] [0, 0]"
proof -
  have m: "inlineMathRule (inline_state (js ''$x$'') 0) True
           = (True, (inline_state (js ''$x$'') 0)\<lparr>pos := 3\<rparr>)"
    by (simp add: inlineMathRule_def inline_state_def js_def charCodeAt_def
        find_closing.simps slice_def trim_def is_ws_def)
  show ?thesis
    using m silent_mode_frame [of "inline_state (js ''$x$'') 0"
        "(inline_state (js ''$x$'') 0)\<lparr>pos := 3\<rparr>"
        "block_state (js ''$$x$$'') [0, 5] [5, 5] [0, 0]" 0 1]
    by (simp add: inline_state_def)
qed

end
